theory Spec2Isabelle
  imports Complex_Main
begin

section \<open>The AirSpy source block of gr-osmosdr (lib/airspy/airspy_source_c.cc)\<close>

text \<open>
  A shallow embedding of \<^verbatim>\<open>airspy_source_c\<close>: the sample FIFO filled by the device
  callback and drained by \<^verbatim>\<open>work\<close>, the start/stop life cycle, and the setters of the
  control surface. A C++ \<^verbatim>\<open>float\<close> or \<^verbatim>\<open>double\<close> value is represented by the real number it
  denotes, and \<^verbatim>\<open>gr_complex\<close> by the type \<^typ>\<open>complex\<close>; the one place where the block does
  arithmetic on doubles, the macro \<^verbatim>\<open>APPLY_PPM_CORR\<close>, is rounded as IEEE 754 binary64 does.
  Member names drop the leading underscore of the source.
\<close>

subsection \<open>Integer conversions written in the source\<close>

text \<open>\<^verbatim>\<open>size_t num_samples = sample_count\<close>: an \<^verbatim>\<open>int\<close> read as a 64-bit unsigned value.\<close>

definition size_t_of_int :: "int \<Rightarrow> nat" where
  "size_t_of_int i = nat (i mod 2 ^ 64)"

text \<open>\<^verbatim>\<open>int n_samples_avail = _fifo->size()\<close>: a size read as a 32-bit signed value.\<close>

definition int_of_size_t :: "nat \<Rightarrow> int" where
  "int_of_size_t n =
     (let m = int n mod 2 ^ 32 in if m < 2 ^ 31 then m else m - 2 ^ 32)"

text \<open>
  \<^verbatim>\<open>uint8_t value = clip_gain\<close> and \<^verbatim>\<open>uint64_t(corr_freq)\<close>: a floating-point value is
  truncated towards zero; the conversion is undefined when the truncated value does not fit.
\<close>

definition uint_of_double :: "nat \<Rightarrow> real \<Rightarrow> nat option" where
  "uint_of_double w x =
     (if - 1 < x \<and> x < 2 ^ w then Some (nat \<lfloor>x\<rfloor>) else None)"

subsection \<open>Errors and diagnostics\<close>

datatype error =
    Unsupported_samplerate real
      \<comment> \<open>\<^verbatim>\<open>runtime_error("Unsupported samplerate: %gM" % (rate/1e6))\<close>\<close>
  | Airspy_failed string real int
      \<comment> \<open>\<^verbatim>\<open>AIRSPY_THROW_ON_ERROR(ret, AIRSPY_FUNC_STR(func, arg))\<close>: function, argument, code\<close>
  | Out_of_range
      \<comment> \<open>\<^verbatim>\<open>circular_buffer::at\<close> beyond the stored elements\<close>
  | Conversion_undefined
      \<comment> \<open>a floating-point value converted to an integer type that cannot hold it\<close>
  | Buffer_overread
      \<comment> \<open>the callback reads past the end of the transfer's sample array\<close>
  | Null_handle
      \<comment> \<open>a libairspy function called with a NULL device\<close>

text \<open>What is written to \<^verbatim>\<open>std::cerr\<close>, one item per \<^verbatim>\<open><<\<close> operand.\<close>

datatype cerr_item = Str string | Num int | Endl

subsection \<open>boost::circular\_buffer\<close>

text \<open>
  The buffer holds at most \<open>capacity\<close> elements, oldest first. \<^verbatim>\<open>push_back\<close> on a full
  buffer overwrites the oldest element (and does nothing when the capacity is zero);
  \<^verbatim>\<open>at\<close> throws \<^verbatim>\<open>std::out_of_range\<close> beyond the stored elements.
\<close>

record 'a circular_buffer =
  capacity :: nat
  elems :: "'a list"

definition cb_size :: "'a circular_buffer \<Rightarrow> nat" where
  "cb_size b = length (elems b)"

definition push_back :: "'a circular_buffer \<Rightarrow> 'a \<Rightarrow> 'a circular_buffer" where
  "push_back b x =
     (if cb_size b = capacity b
      then (if capacity b = 0 then b else b\<lparr>elems := tl (elems b) @ [x]\<rparr>)
      else b\<lparr>elems := elems b @ [x]\<rparr>)"

definition cb_at :: "'a circular_buffer \<Rightarrow> nat \<Rightarrow> 'a option" where
  "cb_at b i = (if i < cb_size b then Some (elems b ! i) else None)"

definition pop_front :: "'a circular_buffer \<Rightarrow> 'a circular_buffer" where
  "pop_front b = b\<lparr>elems := tl (elems b)\<rparr>"

subsection \<open>The device layer (libairspy)\<close>

text \<open>
  libairspy is an external library. Each call made by the block is recorded in the
  session's trace \<open>issued\<close>; the code returned by the library is a parameter of the device
  (\<open>respond\<close>, which sees the calls made so far). The one behaviour of the library that is
  assumed is that an accepted \<^verbatim>\<open>airspy_start_rx\<close> makes \<^verbatim>\<open>airspy_is_streaming\<close> true and an
  accepted \<^verbatim>\<open>airspy_stop_rx\<close> makes it false.
\<close>

type_synonym addr = nat

datatype callback_fn = Airspy_rx_callback_fn
  \<comment> \<open>the static member \<^verbatim>\<open>airspy_source_c::_airspy_rx_callback\<close>\<close>

datatype command =
    Start_rx callback_fn addr
  | Stop_rx
  | Set_samplerate nat
  | Set_freq nat
  | Set_lna_agc nat
  | Set_mixer_agc nat
  | Set_linearity_gain nat
  | Set_sensitivity_gain nat
  | Set_lna_gain nat
  | Set_mixer_gain nat
  | Set_vga_gain nat

record device =
  streaming :: bool
  respond :: "command list \<Rightarrow> command \<Rightarrow> int"

definition AIRSPY_SUCCESS :: int where
  "AIRSPY_SUCCESS = 0"

definition AIRSPY_TRUE :: int where
  "AIRSPY_TRUE = 1"

definition airspy_is_streaming :: "device \<Rightarrow> int" where
  "airspy_is_streaming d = (if streaming d then AIRSPY_TRUE else 0)"

text \<open>GNU Radio's \<^verbatim>\<open>WORK_DONE\<close>.\<close>

definition WORK_DONE :: int where
  "WORK_DONE = - 1"

subsection \<open>The block's state\<close>

datatype gain_policy_t = linearity | sensitivity

record range_t =
  range_start :: real
  range_stop :: real
  range_step :: real

type_synonym meta_range_t = "range_t list"

record session =
  dev :: "device option"
  sample_rates :: "(real \<times> nat) list"
  sample_rate :: real
  center_freq :: real
  freq_corr :: real
  auto_gain :: bool
  gain_policy :: gain_policy_t
  gain :: real
  lna_gain :: real
  mix_gain :: real
  vga_gain :: real
  bandwidth :: real
  fifo :: "complex circular_buffer"
  samp_avail_notified :: nat  \<comment> \<open>number of \<^verbatim>\<open>_samp_avail.notify_one()\<close> calls so far\<close>
  issued :: "command list"    \<comment> \<open>libairspy calls made so far, oldest first\<close>
  cerr :: "cerr_item list"    \<comment> \<open>what has been written to \<^verbatim>\<open>std::cerr\<close>\<close>

text \<open>One libairspy call on an open device: the call is recorded and its code returned.\<close>

definition airspy_call :: "session \<Rightarrow> device \<Rightarrow> command \<Rightarrow> int \<times> session" where
  "airspy_call st d c =
     (let ret = respond d (issued st) c;
          d' = (if ret = AIRSPY_SUCCESS
                then (case c of
                        Start_rx _ _ \<Rightarrow> d\<lparr>streaming := True\<rparr>
                      | Stop_rx \<Rightarrow> d\<lparr>streaming := False\<rparr>
                      | _ \<Rightarrow> d)
                else d)
      in (ret, st\<lparr>dev := Some d', issued := issued st @ [c]\<rparr>))"

subsection \<open>The receive callback\<close>

text \<open>
  The loop of \<^verbatim>\<open>airspy_rx_callback\<close>: \<open>k\<close> iterations remain, \<open>p\<close> is what the pointer
  \<^verbatim>\<open>sample\<close> still has in front of it. Each iteration reads two floats and advances by two.
\<close>

fun push_loop ::
  "nat \<Rightarrow> real list \<Rightarrow> complex circular_buffer \<Rightarrow> bool \<times> complex circular_buffer" where
  "push_loop 0 p b = (True, b)"
| "push_loop (Suc k) (i # q # p) b = push_loop k p (push_back b (Complex i q))"
| "push_loop (Suc k) p b = (False, b)"

definition airspy_rx_callback ::
  "session \<Rightarrow> real list \<Rightarrow> int \<Rightarrow> (error + int) \<times> session" where
  "airspy_rx_callback st samples sample_count =
     (let num_samples = size_t_of_int sample_count;
          n_avail = capacity (fifo st) - cb_size (fifo st);
          to_copy = (if n_avail < num_samples then n_avail else num_samples);
          (ok, b) = push_loop to_copy samples (fifo st);
          st1 = st\<lparr>fifo := b\<rparr>;
          st2 = (if to_copy \<noteq> 0
                 then st1\<lparr>samp_avail_notified := Suc (samp_avail_notified st1)\<rparr> else st1);
          st3 = (if to_copy < num_samples then st2\<lparr>cerr := cerr st2 @ [Str ''O'']\<rparr> else st2)
      in if ok then (Inr 0, st3) else (Inl Buffer_overread, st1))"

text \<open>
  The static trampoline \<^verbatim>\<open>_airspy_rx_callback\<close>: the transfer's context pointer is cast
  back to the object, whose member callback runs on the transfer's samples.
\<close>

record airspy_transfer =
  ctx :: addr
  samples :: "real list"
  sample_count :: int

type_synonym store = "addr \<rightharpoonup> session"

definition airspy_rx_callback_static ::
  "store \<Rightarrow> airspy_transfer \<Rightarrow> (error + int) \<times> store" where
  "airspy_rx_callback_static h transfer =
     (case h (ctx transfer) of
        None \<Rightarrow> (Inl Null_handle, h)
      | Some obj \<Rightarrow>
          (let (r, obj') = airspy_rx_callback obj (samples transfer) (sample_count transfer)
           in (r, h(ctx transfer \<mapsto> obj'))))"

subsection \<open>start and stop\<close>

definition start :: "addr \<Rightarrow> session \<Rightarrow> (error + bool) \<times> session" where
  "start this st =
     (case dev st of
        None \<Rightarrow> (Inr False, st)
      | Some d \<Rightarrow>
          (let (ret, st1) = airspy_call st d (Start_rx Airspy_rx_callback_fn this)
           in if ret \<noteq> AIRSPY_SUCCESS
              then (Inr False,
                    st1\<lparr>cerr := cerr st1 @
                      [Str ''Failed to start RX streaming ('', Num ret, Str '')'', Endl]\<rparr>)
              else (Inr True, st1)))"

definition stop :: "session \<Rightarrow> (error + bool) \<times> session" where
  "stop st =
     (case dev st of
        None \<Rightarrow> (Inr False, st)
      | Some d \<Rightarrow>
          (let (ret, st1) = airspy_call st d Stop_rx
           in if ret \<noteq> AIRSPY_SUCCESS
              then (Inr False,
                    st1\<lparr>cerr := cerr st1 @
                      [Str ''Failed to stop RX streaming ('', Num ret, Str '')'', Endl]\<rparr>)
              else (Inr True, st1)))"

subsection \<open>work\<close>

text \<open>
  \<^verbatim>\<open>work\<close> runs on the consumer thread. While it sits in \<^verbatim>\<open>_samp_avail.wait(lock)\<close> the lock
  is released and the other threads run: the device thread delivers transfers, a control
  thread may call \<^verbatim>\<open>start\<close> or \<^verbatim>\<open>stop\<close>. A schedule lists, for each call of \<^verbatim>\<open>wait\<close> in
  turn, what the other threads do before the consumer wakes up (by a notification or
  spuriously). When the schedule is used up nothing happens any more, and a consumer that
  calls \<^verbatim>\<open>wait\<close> again stays blocked: that outcome is \<open>Work_blocked\<close>.
\<close>

datatype action = Rx_callback "real list" int | Call_start addr | Call_stop

definition other_step :: "session \<Rightarrow> action \<Rightarrow> session" where
  "other_step st a =
     (case a of
        Rx_callback s k \<Rightarrow> snd (airspy_rx_callback st s k)
      | Call_start this \<Rightarrow> snd (start this st)
      | Call_stop \<Rightarrow> snd (stop st))"

definition others_run :: "session \<Rightarrow> action list \<Rightarrow> session" where
  "others_run st w = foldl other_step st w"

text \<open>
  The loop \<^verbatim>\<open>while (n_samples_avail < noutput_items) { wait; n_samples_avail = size; }\<close>.
  The result says whether the loop was left, and in which state.
\<close>

fun wait_loop :: "session \<Rightarrow> int \<Rightarrow> action list list \<Rightarrow> bool \<times> session" where
  "wait_loop st noutput_items [] =
     (\<not> int_of_size_t (cb_size (fifo st)) < noutput_items, st)"
| "wait_loop st noutput_items (w # ws) =
     (if int_of_size_t (cb_size (fifo st)) < noutput_items
      then wait_loop (others_run st w) noutput_items ws
      else (True, st))"

text \<open>
  The loop \<^verbatim>\<open>for (i = 0; i < noutput_items; ++i) { out[i] = _fifo->at(0); pop_front(); }\<close>:
  \<open>k\<close> iterations remain, \<open>out\<close> is what has been written to the output array.
\<close>

fun pop_loop ::
  "nat \<Rightarrow> complex list \<Rightarrow> complex circular_buffer
     \<Rightarrow> error option \<times> complex list \<times> complex circular_buffer" where
  "pop_loop 0 out b = (None, out, b)"
| "pop_loop (Suc k) out b =
     (case cb_at b 0 of
        None \<Rightarrow> (Some Out_of_range, out, b)
      | Some x \<Rightarrow> pop_loop k (out @ [x]) (pop_front b))"

datatype work_result =
    Work_returned int "complex list"  \<comment> \<open>the value returned and the items written to \<^verbatim>\<open>out\<close>\<close>
  | Work_threw error
  | Work_blocked

definition running :: "session \<Rightarrow> bool" where
  "running st =
     (case dev st of None \<Rightarrow> False | Some d \<Rightarrow> airspy_is_streaming d = AIRSPY_TRUE)"

definition work :: "session \<Rightarrow> int \<Rightarrow> action list list \<Rightarrow> work_result \<times> session" where
  "work st noutput_items waits =
     (if \<not> running st then (Work_returned WORK_DONE [], st)
      else (case wait_loop st noutput_items waits of
              (False, st1) \<Rightarrow> (Work_blocked, st1)
            | (True, st1) \<Rightarrow>
                (case pop_loop (nat noutput_items) [] (fifo st1) of
                   (None, out, b) \<Rightarrow> (Work_returned noutput_items out, st1\<lparr>fifo := b\<rparr>)
                 | (Some e, out, b) \<Rightarrow> (Work_threw e, st1\<lparr>fifo := b\<rparr>))))"

subsection \<open>Sample rate and frequency\<close>

text \<open>The search loop of \<^verbatim>\<open>set_sample_rate\<close>: it has no \<^verbatim>\<open>break\<close>, the last match wins.\<close>

definition find_rate :: "(real \<times> nat) list \<Rightarrow> real \<Rightarrow> bool \<times> nat" where
  "find_rate rates rate =
     foldl (\<lambda>(found_supported_rate, samp_rate_index) e.
              if fst e = rate then (True, snd e)
              else (found_supported_rate, samp_rate_index))
           (False, 0) rates"

definition get_sample_rate :: "session \<Rightarrow> real" where
  "get_sample_rate st = sample_rate st"

definition set_sample_rate :: "session \<Rightarrow> real \<Rightarrow> (error + real) \<times> session" where
  "set_sample_rate st rate =
     (case dev st of
        None \<Rightarrow> (Inr (get_sample_rate st), st)
      | Some d \<Rightarrow>
          (let (found_supported_rate, samp_rate_index) = find_rate (sample_rates st) rate
           in if \<not> found_supported_rate
              then (Inl (Unsupported_samplerate (rate / 1000000)), st)
              else (let (ret, st1) = airspy_call st d (Set_samplerate samp_rate_index)
                    in if ret = AIRSPY_SUCCESS
                       then (let st2 = st1\<lparr>sample_rate := rate\<rparr>
                             in (Inr (get_sample_rate st2), st2))
                       else (Inl (Airspy_failed ''airspy_set_samplerate'' rate ret), st1))))"

text \<open>
  Double arithmetic. The result of an operation on doubles is the exact result rounded to
  the nearest binary64 value, ties to the even significand: a significand of 53 bits, and
  an exponent that does not go below that of the subnormal numbers. \<open>binade\<close> finds the
  exponent \<open>e\<close> of the unit in the last place by halving or doubling the magnitude (its
  first argument bounds the number of steps, and 4096 covers every product and sum of
  doubles). A magnitude beyond the largest double, where binary64 gives an infinity, is
  left as a real beyond every \<^verbatim>\<open>uint64_t\<close>: \<^verbatim>\<open>uint64_t(corr_freq)\<close> is undefined for both.
\<close>

definition round_half_even :: "real \<Rightarrow> int" where
  "round_half_even x =
     (let n = \<lfloor>x\<rfloor>; d = x - of_int n
      in if d < 1 / 2 then n else if 1 / 2 < d then n + 1
         else if even n then n else n + 1)"

fun binade :: "nat \<Rightarrow> real \<Rightarrow> int \<Rightarrow> int" where
  "binade 0 x e = e"
| "binade (Suc n) x e =
     (if 2 ^ 53 \<le> x then binade n (x / 2) (e + 1)
      else if x < 2 ^ 52 \<and> - 1074 < e then binade n (x * 2) (e - 1)
      else e)"

definition pow2 :: "int \<Rightarrow> real" where
  "pow2 e = (if 0 \<le> e then 2 ^ nat e else 1 / 2 ^ nat (- e))"

definition double_of_real :: "real \<Rightarrow> real" where
  "double_of_real x =
     (if x = 0 then 0
      else (let e = binade 4096 \<bar>x\<bar> 0
            in sgn x * of_int (round_half_even (\<bar>x\<bar> / pow2 e)) * pow2 e))"

text \<open>
  \<^verbatim>\<open>#define APPLY_PPM_CORR(val, ppm) ((val) * (1.0 + (ppm) * 0.000001))\<close> on doubles: the
  literal \<^verbatim>\<open>0.000001\<close> is the double nearest to it, and the product, the sum and the outer
  product are each rounded on their own (no fused multiply-add).
\<close>

definition APPLY_PPM_CORR :: "real \<Rightarrow> real \<Rightarrow> real" where
  "APPLY_PPM_CORR val ppm =
     double_of_real (val *
       double_of_real (1 + double_of_real (ppm * double_of_real 0.000001)))"

definition get_center_freq :: "session \<Rightarrow> real" where
  "get_center_freq st = center_freq st"

definition set_center_freq :: "session \<Rightarrow> real \<Rightarrow> (error + real) \<times> session" where
  "set_center_freq st freq =
     (case dev st of
        None \<Rightarrow> (Inr (get_center_freq st), st)
      | Some d \<Rightarrow>
          (let corr_freq = APPLY_PPM_CORR freq (freq_corr st)
           in case uint_of_double 64 corr_freq of
                None \<Rightarrow> (Inl Conversion_undefined, st)
              | Some hz \<Rightarrow>
                  (let (ret, st1) = airspy_call st d (Set_freq hz)
                   in if ret = AIRSPY_SUCCESS
                      then (let st2 = st1\<lparr>center_freq := freq\<rparr>
                            in (Inr (get_center_freq st2), st2))
                      else (Inl (Airspy_failed ''airspy_set_freq'' corr_freq ret), st1))))"



subsection \<open>Gains\<close>

text \<open>
  \<^verbatim>\<open>osmosdr::meta_range_t::clip\<close> is declared outside this file; the setters take it as the
  parameter \<open>clip\<close> (range, value, \<^verbatim>\<open>clip_step\<close>).
\<close>

type_synonym clip_t = "meta_range_t \<Rightarrow> real \<Rightarrow> bool \<Rightarrow> real"

definition gain_range_t :: "real \<Rightarrow> real \<Rightarrow> real \<Rightarrow> meta_range_t" where
  "gain_range_t a b s = [\<lparr>range_start = a, range_stop = b, range_step = s\<rparr>]"

definition get_gain_range :: meta_range_t where
  "get_gain_range = gain_range_t 0 21 1"

definition get_gain_range_named :: "string \<Rightarrow> meta_range_t" where
  "get_gain_range_named name =
     (if ''LNA'' = name then gain_range_t 0 15 1
      else if ''MIX'' = name then gain_range_t 0 15 1
      else if ''IF'' = name then gain_range_t 0 15 1
      else [])"

definition set_gain :: "clip_t \<Rightarrow> session \<Rightarrow> real \<Rightarrow> (error + real) \<times> session" where
  "set_gain clip st g =
     (let gains = get_gain_range
      in case dev st of
           None \<Rightarrow> (Inr (gain st), st)
         | Some d \<Rightarrow>
             (let clip_gain = clip gains g True
              in case uint_of_double 8 clip_gain of
                   None \<Rightarrow> (Inl Conversion_undefined, st)
                 | Some v \<Rightarrow>
                     (case gain_policy st of
                        linearity \<Rightarrow>
                          (let (ret, st1) = airspy_call st d (Set_linearity_gain v)
                           in if ret = AIRSPY_SUCCESS
                              then (Inr clip_gain, st1\<lparr>gain := clip_gain\<rparr>)
                              else (Inl (Airspy_failed ''airspy_set_linearity_gain'' (real v) ret),
                                    st1))
                      | sensitivity \<Rightarrow>
                          (let (ret, st1) = airspy_call st d (Set_sensitivity_gain v)
                           in if ret = AIRSPY_SUCCESS
                              then (Inr clip_gain, st1\<lparr>gain := clip_gain\<rparr>)
                              else (Inl (Airspy_failed ''airspy_set_sensitivity_gain'' (real v) ret),
                                    st1)))))"

definition set_lna_gain :: "clip_t \<Rightarrow> session \<Rightarrow> real \<Rightarrow> (error + real) \<times> session" where
  "set_lna_gain clip st g =
     (let gains = get_gain_range_named ''LNA''
      in case dev st of
           None \<Rightarrow> (Inr (lna_gain st), st)
         | Some d \<Rightarrow>
             (let clip_gain = clip gains g True
              in case uint_of_double 8 clip_gain of
                   None \<Rightarrow> (Inl Conversion_undefined, st)
                 | Some v \<Rightarrow>
                     (let (ret, st1) = airspy_call st d (Set_lna_gain v)
                      in if ret = AIRSPY_SUCCESS
                         then (Inr clip_gain, st1\<lparr>lna_gain := clip_gain\<rparr>)
                         else (Inl (Airspy_failed ''airspy_set_lna_gain'' (real v) ret), st1))))"

definition set_mix_gain :: "clip_t \<Rightarrow> session \<Rightarrow> real \<Rightarrow> (error + real) \<times> session" where
  "set_mix_gain clip st g =
     (let gains = get_gain_range_named ''MIX''
      in case dev st of
           None \<Rightarrow> (Inr (mix_gain st), st)
         | Some d \<Rightarrow>
             (let clip_gain = clip gains g True
              in case uint_of_double 8 clip_gain of
                   None \<Rightarrow> (Inl Conversion_undefined, st)
                 | Some v \<Rightarrow>
                     (let (ret, st1) = airspy_call st d (Set_mixer_gain v)
                      in if ret = AIRSPY_SUCCESS
                         then (Inr clip_gain, st1\<lparr>mix_gain := clip_gain\<rparr>)
                         else (Inl (Airspy_failed ''airspy_set_mixer_gain'' (real v) ret), st1))))"

text \<open>\<^verbatim>\<open>set_if_gain\<close> asks for the range named "MIX", as the source does.\<close>

definition set_if_gain :: "clip_t \<Rightarrow> session \<Rightarrow> real \<Rightarrow> (error + real) \<times> session" where
  "set_if_gain clip st g =
     (let gains = get_gain_range_named ''MIX''
      in case dev st of
           None \<Rightarrow> (Inr (vga_gain st), st)
         | Some d \<Rightarrow>
             (let clip_gain = clip gains g True
              in case uint_of_double 8 clip_gain of
                   None \<Rightarrow> (Inl Conversion_undefined, st)
                 | Some v \<Rightarrow>
                     (let (ret, st1) = airspy_call st d (Set_vga_gain v)
                      in if ret = AIRSPY_SUCCESS
                         then (Inr clip_gain, st1\<lparr>vga_gain := clip_gain\<rparr>)
                         else (Inl (Airspy_failed ''airspy_set_vga_gain'' (real v) ret), st1))))"

definition get_gain_mode :: "session \<Rightarrow> bool" where
  "get_gain_mode st = auto_gain st"

text \<open>
  \<^verbatim>\<open>set_gain_mode\<close> does not test the handle before the two AGC calls and ignores the codes
  they return.
\<close>

definition set_gain_mode :: "clip_t \<Rightarrow> session \<Rightarrow> bool \<Rightarrow> (error + bool) \<times> session" where
  "set_gain_mode clip st automatic =
     (case dev st of
        None \<Rightarrow> (Inl Null_handle, st)
      | Some d \<Rightarrow>
          (if automatic
           then (let (r1, st1) = airspy_call st d (Set_lna_agc 1);
                     (r2, st2) = airspy_call st1 (the (dev st1)) (Set_mixer_agc 1);
                     st3 = st2\<lparr>auto_gain := automatic\<rparr>
                 in (Inr (get_gain_mode st3), st3))
           else (let (r1, st1) = airspy_call st d (Set_lna_agc 0);
                     (r2, st2) = airspy_call st1 (the (dev st1)) (Set_mixer_agc 0)
                 in case set_lna_gain clip st2 (lna_gain st2) of
                      (Inl e, st3) \<Rightarrow> (Inl e, st3)
                    | (Inr _, st3) \<Rightarrow>
                        (case set_mix_gain clip st3 (mix_gain st3) of
                           (Inl e, st4) \<Rightarrow> (Inl e, st4)
                         | (Inr _, st4) \<Rightarrow>
                             (let st5 = st4\<lparr>auto_gain := automatic\<rparr>
                              in (Inr (get_gain_mode st5), st5))))))"

subsection \<open>Reference notions used to state the properties\<close>

text \<open>
  The samples of a transfer as the specification describes them: consecutive interleaved
  floats taken two by two, the first as I and the second as Q.
\<close>

fun decode_iq :: "real list \<Rightarrow> complex list" where
  "decode_iq (i # q # p) = Complex i q # decode_iq p"
| "decode_iq p = []"

text \<open>
  A session with the values of the constructor's member initialisers, a given handle and
  rate list, and an empty FIFO of a given capacity. The member \<^verbatim>\<open>_gain\<close>, which the
  constructor does not initialise, is taken to be 0.
\<close>

definition initial_session :: "device option \<Rightarrow> (real \<times> nat) list \<Rightarrow> nat \<Rightarrow> session" where
  "initial_session d rates cap =
     \<lparr>dev = d, sample_rates = rates, sample_rate = 0, center_freq = 0, freq_corr = 0,
      auto_gain = False, gain_policy = linearity, gain = 0, lna_gain = 0, mix_gain = 0,
      vga_gain = 0, bandwidth = 0, fifo = \<lparr>capacity = cap, elems = []\<rparr>,
      samp_avail_notified = 0, issued = [], cerr = []\<rparr>"

text \<open>A device that accepts every call; \<open>s\<close> says whether it is streaming.\<close>

definition accepting_device :: "bool \<Rightarrow> device" where
  "accepting_device s = \<lparr>streaming = s, respond = (\<lambda>_ _. AIRSPY_SUCCESS)\<rparr>"

text \<open>A run of callbacks, one per transfer (sample array and sample count).\<close>

definition push_batches :: "session \<Rightarrow> (real list \<times> int) list \<Rightarrow> session" where
  "push_batches st bs = foldl (\<lambda>s (buf, k). snd (airspy_rx_callback s buf k)) st bs"

text \<open>
  The states in which the consumer evaluates the condition of its wait loop under a
  schedule: the state at entry, then the state after each wait.
\<close>

fun wakeups :: "session \<Rightarrow> action list list \<Rightarrow> session list" where
  "wakeups st [] = [st]"
| "wakeups st (w # ws) = st # wakeups (others_run st w) ws"

definition fifo_ok :: "session \<Rightarrow> bool" where
  "fifo_ok st \<longleftrightarrow> cb_size (fifo st) \<le> capacity (fifo st) \<and> capacity (fifo st) < 2 ^ 31"

fun is_rx_callback :: "action \<Rightarrow> bool" where
  "is_rx_callback (Rx_callback s k) = True"
| "is_rx_callback a = False"

text \<open>
  A device that accepts the first \<open>n\<close> calls made to it and answers every later one with
  the error code -1000 (\<^verbatim>\<open>AIRSPY_ERROR_LIBUSB\<close>).
\<close>

definition device_accepting_first :: "nat \<Rightarrow> device" where
  "device_accepting_first n =
     \<lparr>streaming = False,
      respond = (\<lambda>h c. if length h < n then AIRSPY_SUCCESS else - 1000)\<rparr>"

text \<open>
  Modelled from the spec: \<^verbatim>\<open>osmosdr::meta_range_t::clip\<close> is not part of this file, and the
  specification says only that a requested value is clipped against the range. This
  stand-in brings the value within the bounds of the first range; it serves to run the
  setters on concrete values, while the properties are stated for every \<open>clip\<close>.
\<close>

definition clamp_clip :: clip_t where
  "clamp_clip r g clip_step =
     (case r of [] \<Rightarrow> g | x # _ \<Rightarrow> max (range_start x) (min (range_stop x) g))"

section \<open>Properties\<close>

subsection \<open>The receive callback fills the FIFO without overwriting\<close>

lemma length_decode_iq: "length (decode_iq p) = length p div 2"
  by (induction p rule: decode_iq.induct) auto

lemma push_back_room:
  "cb_size b < capacity b \<Longrightarrow> push_back b x = b\<lparr>elems := elems b @ [x]\<rparr>"
  by (simp add: push_back_def)

lemma push_loop_fits:
  "cb_size b + k \<le> capacity b \<Longrightarrow> 2 * k \<le> length p \<Longrightarrow>
   push_loop k p b = (True, b\<lparr>elems := elems b @ take k (decode_iq p)\<rparr>)"
proof (induction k p b rule: push_loop.induct)
  case (1 p b)
  then show ?case by simp
next
  case (2 k i q p b)
  then have "cb_size b < capacity b" by simp
  then have pb: "push_back b (Complex i q) = b\<lparr>elems := elems b @ [Complex i q]\<rparr>"
    by (rule push_back_room)
  from 2 show ?case by (simp add: pb cb_size_def)
qed simp_all

lemma size_t_of_int_nonneg: "0 \<le> k \<Longrightarrow> k < 2 ^ 64 \<Longrightarrow> size_t_of_int k = nat k"
  by (simp add: size_t_of_int_def)

text \<open>
  C1. A transfer of \<open>k\<close> samples (an array of \<open>2 * k\<close> floats) arrives while the FIFO holds
  \<open>s\<close> of its \<open>C\<close> places. The callback appends the first \<open>min (C - s) k\<close> decoded samples, in
  order, and nothing else; the capacity is unchanged and the size stays within it; the
  overrun mark "O" is written exactly when fewer than \<open>k\<close> samples were taken; the callback
  returns 0.
\<close>

theorem rx_callback_accepts_prefix:
  assumes inv: "cb_size (fifo st) \<le> capacity (fifo st)"
    and k0: "0 \<le> k" and k31: "k < 2 ^ 31"
    and len: "length buf = 2 * nat k"
  shows "let m = min (capacity (fifo st) - cb_size (fifo st)) (nat k);
             (r, st') = airspy_rx_callback st buf k
         in r = Inr 0
          \<and> elems (fifo st') = elems (fifo st) @ take m (decode_iq buf)
          \<and> capacity (fifo st') = capacity (fifo st)
          \<and> cb_size (fifo st') = cb_size (fifo st) + m
          \<and> cb_size (fifo st') \<le> capacity (fifo st)
          \<and> cerr st' = cerr st @ (if m < nat k then [Str ''O''] else [])"
proof -
  define m where "m = min (capacity (fifo st) - cb_size (fifo st)) (nat k)"
  have sz: "size_t_of_int k = nat k"
    using k0 k31 by (intro size_t_of_int_nonneg) simp_all
  have to_copy: "(if capacity (fifo st) - cb_size (fifo st) < nat k
                  then capacity (fifo st) - cb_size (fifo st) else nat k) = m"
    by (simp add: m_def min_def)
  have fits: "cb_size (fifo st) + m \<le> capacity (fifo st)" and short: "2 * m \<le> length buf"
    using inv len by (simp_all add: m_def)
  have loop: "push_loop m buf (fifo st)
                = (True, (fifo st)\<lparr>elems := elems (fifo st) @ take m (decode_iq buf)\<rparr>)"
    using fits short by (rule push_loop_fits)
  have lm: "length (take m (decode_iq buf)) = m"
    using len by (simp add: length_decode_iq m_def)
  show ?thesis
    unfolding m_def [symmetric] airspy_rx_callback_def Let_def sz to_copy loop
    using fits lm by (simp add: cb_size_def)
qed

text \<open>
  The scenario of the specification: 15 samples pushed into an empty FIFO of capacity 10.
  The first 10 are taken, the size is 10 and the overrun mark is written.
\<close>

theorem rx_callback_accepts_prefix_witness:
  "cb_size (fifo (initial_session None [] 10)) \<le> capacity (fifo (initial_session None [] 10))
   \<and> (case airspy_rx_callback (initial_session None [] 10)
              [1, 2, 3, 4, 5, 6, 7, 8, 9, 10, 11, 12, 13, 14, 15, 16, 17, 18, 19, 20,
               21, 22, 23, 24, 25, 26, 27, 28, 29, 30] 15 of
         (r, st') \<Rightarrow>
           r = Inr 0
         \<and> elems (fifo st') =
             [Complex 1 2, Complex 3 4, Complex 5 6, Complex 7 8, Complex 9 10,
              Complex 11 12, Complex 13 14, Complex 15 16, Complex 17 18, Complex 19 20]
         \<and> cb_size (fifo st') = 10
         \<and> cerr st' = [Str ''O''])"
  using rx_callback_accepts_prefix [of "initial_session None [] 10" 15
      "[1, 2, 3, 4, 5, 6, 7, 8, 9, 10, 11, 12, 13, 14, 15, 16, 17, 18, 19, 20,
        21, 22, 23, 24, 25, 26, 27, 28, 29, 30]"]
  by (simp add: initial_session_def cb_size_def split: prod.splits)

subsection \<open>What the other threads leave unchanged\<close>

lemma int_of_size_t_small: "n < 2 ^ 31 \<Longrightarrow> int_of_size_t n = int n"
  by (simp add: int_of_size_t_def Let_def)

lemma push_back_keeps:
  "capacity (push_back b x) = capacity b"
  "cb_size b \<le> capacity b \<Longrightarrow> cb_size (push_back b x) \<le> capacity b"
  by (auto simp: push_back_def cb_size_def)

lemma push_loop_keeps:
  "capacity (snd (push_loop k p b)) = capacity b
   \<and> (cb_size b \<le> capacity b \<longrightarrow> cb_size (snd (push_loop k p b)) \<le> capacity b)"
  by (induction k p b rule: push_loop.induct) (simp_all add: push_back_keeps)

lemma rx_callback_fifo:
  "fifo (snd (airspy_rx_callback st buf k))
     = snd (push_loop (min (capacity (fifo st) - cb_size (fifo st)) (size_t_of_int k)) buf (fifo st))"
  by (simp add: airspy_rx_callback_def Let_def min_def split: prod.splits)

lemma rx_callback_dev: "dev (snd (airspy_rx_callback st buf k)) = dev st"
  by (simp add: airspy_rx_callback_def Let_def split: prod.splits)

lemma airspy_call_fifo: "fifo (snd (airspy_call st d c)) = fifo st"
  by (simp add: airspy_call_def Let_def)

lemma start_fifo: "fifo (snd (start this st)) = fifo st"
  by (simp add: start_def airspy_call_def Let_def split: option.splits)

lemma stop_fifo: "fifo (snd (stop st)) = fifo st"
  by (simp add: stop_def airspy_call_def Let_def split: option.splits)

lemma other_step_ok: "fifo_ok st \<Longrightarrow> fifo_ok (other_step st a)"
  by (cases a) (simp_all add: fifo_ok_def other_step_def rx_callback_fifo push_loop_keeps
      start_fifo stop_fifo)

lemma others_run_ok: "fifo_ok st \<Longrightarrow> fifo_ok (others_run st w)"
  unfolding others_run_def by (induction w arbitrary: st) (simp_all add: other_step_ok)

lemma wait_loop_find:
  "fifo_ok st \<Longrightarrow>
   wait_loop st n waits =
     (case find (\<lambda>s. n \<le> int (cb_size (fifo s))) (wakeups st waits) of
        None \<Rightarrow> (False, last (wakeups st waits))
      | Some s \<Rightarrow> (True, s))"
proof (induction waits arbitrary: st)
  case Nil
  then have "int_of_size_t (cb_size (fifo st)) = int (cb_size (fifo st))"
    by (intro int_of_size_t_small) (simp add: fifo_ok_def)
  then show ?case by auto
next
  case (Cons w ws)
  then have sz: "int_of_size_t (cb_size (fifo st)) = int (cb_size (fifo st))"
    by (intro int_of_size_t_small) (simp add: fifo_ok_def)
  have "fifo_ok (others_run st w)" using Cons.prems by (rule others_run_ok)
  then have ih: "wait_loop (others_run st w) n ws =
     (case find (\<lambda>s. n \<le> int (cb_size (fifo s))) (wakeups (others_run st w) ws) of
        None \<Rightarrow> (False, last (wakeups (others_run st w) ws))
      | Some s \<Rightarrow> (True, s))" by (rule Cons.IH)
  have ne: "wakeups (others_run st w) ws \<noteq> []" by (cases ws) simp_all
  show ?case by (simp add: sz ih ne split: option.split)
qed

lemma find_holds: "find P xs = Some x \<Longrightarrow> P x"
  by (induction xs) (auto split: if_splits)

lemma pop_loop_enough:
  "k \<le> cb_size b \<Longrightarrow>
   pop_loop k out b = (None, out @ take k (elems b), b\<lparr>elems := drop k (elems b)\<rparr>)"
proof (induction k arbitrary: out b)
  case 0
  then show ?case by simp
next
  case (Suc k)
  then obtain x xs where b: "elems b = x # xs" 
    by (cases "elems b") (simp_all add: cb_size_def)
  have "k \<le> cb_size (pop_front b)" using Suc.prems b by (simp add: cb_size_def pop_front_def)
  then have "pop_loop k (out @ [x]) (pop_front b)
     = (None, (out @ [x]) @ take k (elems (pop_front b)),
        (pop_front b)\<lparr>elems := drop k (elems (pop_front b))\<rparr>)" by (rule Suc.IH)
  then show ?case using b by (simp add: cb_at_def cb_size_def pop_front_def)
qed


subsection \<open>Samples leave the FIFO in the order in which they entered\<close>

lemma rx_callback_whole:
  assumes "cb_size (fifo st) + nat k \<le> capacity (fifo st)" "0 \<le> k" "k < 2 ^ 64"
    "length buf = 2 * nat k"
  shows "fifo (snd (airspy_rx_callback st buf k))
           = (fifo st)\<lparr>elems := elems (fifo st) @ decode_iq buf\<rparr>"
proof -
  have sz: "size_t_of_int k = nat k" using assms by (intro size_t_of_int_nonneg)
  have m: "min (capacity (fifo st) - cb_size (fifo st)) (nat k) = nat k" using assms by simp
  have "push_loop (nat k) buf (fifo st)
          = (True, (fifo st)\<lparr>elems := elems (fifo st) @ take (nat k) (decode_iq buf)\<rparr>)"
    using assms by (intro push_loop_fits) simp_all
  moreover have "take (nat k) (decode_iq buf) = decode_iq buf"
    using assms by (simp add: length_decode_iq)
  ultimately show ?thesis by (simp add: rx_callback_fifo sz m)
qed

lemma push_batches_fifo:
  assumes "\<forall>(buf, k) \<in> set bs. 0 \<le> k \<and> length buf = 2 * nat k"
    and "int (cb_size (fifo st)) + sum_list (map snd bs) \<le> int (capacity (fifo st))"
    and "capacity (fifo st) < 2 ^ 31"
  shows "fifo (push_batches st bs)
           = (fifo st)\<lparr>elems := elems (fifo st) @ concat (map (decode_iq \<circ> fst) bs)\<rparr>
         \<and> dev (push_batches st bs) = dev st"
  using assms
proof (induction bs arbitrary: st)
  case Nil
  then show ?case by (simp add: push_batches_def)
next
  case (Cons b bs)
  obtain buf k where b: "b = (buf, k)" by (cases b)
  let ?st1 = "snd (airspy_rx_callback st buf k)"
  have k: "0 \<le> k" "length buf = 2 * nat k" using Cons.prems(1) b by auto
  have rest: "\<forall>(buf, k) \<in> set bs. 0 \<le> k \<and> length buf = 2 * nat k" using Cons.prems(1) by simp
  have nonneg: "0 \<le> sum_list (map snd bs)"
    using rest by (intro sum_list_nonneg) auto
  have room: "cb_size (fifo st) + nat k \<le> capacity (fifo st)"
    using Cons.prems(2) nonneg k b by simp
  have "k < 2 ^ 64" using room Cons.prems(3) k by simp
  with room k have f1: "fifo ?st1 = (fifo st)\<lparr>elems := elems (fifo st) @ decode_iq buf\<rparr>"
    by (intro rx_callback_whole)
  have len: "length (decode_iq buf) = nat k" using k by (simp add: length_decode_iq)
  have "fifo (push_batches ?st1 bs)
           = (fifo ?st1)\<lparr>elems := elems (fifo ?st1) @ concat (map (decode_iq \<circ> fst) bs)\<rparr>
         \<and> dev (push_batches ?st1 bs) = dev ?st1"
    using rest Cons.prems(2,3) k b
    by (intro Cons.IH) (simp_all add: f1 cb_size_def len)
  moreover have "push_batches st (b # bs) = push_batches ?st1 bs"
    by (simp add: push_batches_def b)
  ultimately show ?case by (simp add: f1 b rx_callback_dev o_def)
qed

lemma wait_loop_enough:
  "fifo_ok st \<Longrightarrow> n \<le> int (cb_size (fifo st)) \<Longrightarrow> wait_loop st n waits = (True, st)"
  by (cases waits) (simp_all add: int_of_size_t_small fifo_ok_def)

text \<open>
  C2. Transfers are pushed into an empty FIFO, each a well-formed array of \<open>2 * k\<close> floats,
  their sample counts adding up to at most the capacity. On a streaming session a call
  of \<^verbatim>\<open>work\<close> for that total returns at once, under every schedule, and writes exactly the
  samples of the first transfer, then those of the second, and so on, each sample being
  (I, Q) from two consecutive floats; the FIFO is empty again.
\<close>

theorem pushes_then_pop_in_order:
  assumes run: "running st" and empty: "elems (fifo st) = []"
    and cap: "capacity (fifo st) < 2 ^ 31"
    and wf: "\<forall>(buf, k) \<in> set bs. 0 \<le> k \<and> length buf = 2 * nat k"
    and total: "sum_list (map snd bs) \<le> int (capacity (fifo st))"
  shows "work (push_batches st bs) (sum_list (map snd bs)) waits
           = (Work_returned (sum_list (map snd bs)) (concat (map (decode_iq \<circ> fst) bs)),
              (push_batches st bs)\<lparr>fifo := fifo st\<rparr>)"
proof -
  let ?st' = "push_batches st bs" and ?n = "sum_list (map snd bs)"
  let ?xs = "concat (map (decode_iq \<circ> fst) bs)"
  have pb: "fifo ?st' = (fifo st)\<lparr>elems := ?xs\<rparr>" "dev ?st' = dev st"
    using push_batches_fifo [OF wf, of st] total cap empty by (simp_all add: cb_size_def)
  have len: "int (length ?xs) = ?n"
    using wf
  proof (induction bs)
    case Nil then show ?case by simp
  next
    case (Cons b bs) then show ?case by (cases b) (auto simp: length_decode_iq)
  qed
  have ok: "fifo_ok ?st'" using total cap len by (simp add: fifo_ok_def pb cb_size_def)
  have enough: "?n \<le> int (cb_size (fifo ?st'))" using len by (simp add: pb cb_size_def)
  have wl: "wait_loop ?st' ?n waits = (True, ?st')" using ok enough by (rule wait_loop_enough)
  have pl: "pop_loop (nat ?n) [] ((fifo st)\<lparr>elems := ?xs\<rparr>)
              = (None, ?xs, (fifo st)\<lparr>elems := []\<rparr>)"
    using pop_loop_enough [of "nat ?n" "(fifo st)\<lparr>elems := ?xs\<rparr>" "[]"] len
    by (simp add: cb_size_def)
  have r: "running ?st'" using run by (simp add: running_def pb)
  have same: "(fifo st)\<lparr>elems := []\<rparr> = fifo st" using empty by simp
  show ?thesis by (simp add: work_def r wl pb pl same)
qed


theorem pushes_then_pop_in_order_witness:
  "running (initial_session (Some (accepting_device True)) [] 10)
   \<and> fst (work (push_batches (initial_session (Some (accepting_device True)) [] 10)
                 [([1, 2, 3, 4], 2), ([5, 6], 1), ([7, 8, 9, 10, 11, 12], 3)]) 6 [])
       = Work_returned 6
           [Complex 1 2, Complex 3 4, Complex 5 6, Complex 7 8, Complex 9 10, Complex 11 12]"
  using pushes_then_pop_in_order [of "initial_session (Some (accepting_device True)) [] 10"
      "[([1, 2, 3, 4], 2), ([5, 6], 1), ([7, 8, 9, 10, 11, 12], 3)]" "[]"]
  by (simp add: initial_session_def accepting_device_def running_def airspy_is_streaming_def
      AIRSPY_TRUE_def)


subsection \<open>work waits for the fill level, then pops from the front\<close>

text \<open>
  C3. On a streaming session \<^verbatim>\<open>work\<close> for \<open>n\<close> items stays in its wait loop as long as
  the FIFO holds fewer than \<open>n\<close> samples: it returns in the first state, among those seen
  at entry and after each wait, whose size is at least \<open>n\<close>. It then writes the first \<open>n\<close>
  samples of that state and leaves the others, in their order. When no such state comes,
  the consumer is still blocked at the end of the schedule.
\<close>

theorem work_blocks_then_pops:
  assumes run: "running st" and ok: "cb_size (fifo st) \<le> capacity (fifo st)"
    and cap: "capacity (fifo st) < 2 ^ 31"
  shows "work st n waits =
     (case find (\<lambda>s. n \<le> int (cb_size (fifo s))) (wakeups st waits) of
        None \<Rightarrow> (Work_blocked, last (wakeups st waits))
      | Some s \<Rightarrow>
          (Work_returned n (take (nat n) (elems (fifo s))),
           s\<lparr>fifo := (fifo s)\<lparr>elems := drop (nat n) (elems (fifo s))\<rparr>\<rparr>))"
proof -
  have fok: "fifo_ok st" using ok cap by (simp add: fifo_ok_def)
  note wl = wait_loop_find [OF fok, of n waits]
  show ?thesis
  proof (cases "find (\<lambda>s. n \<le> int (cb_size (fifo s))) (wakeups st waits)")
    case None
    then show ?thesis using run wl by (simp add: work_def)
  next
    case (Some s)
    then have "n \<le> int (cb_size (fifo s))" by (rule find_holds)
    then have "nat n \<le> cb_size (fifo s)" by simp
    then have "pop_loop (nat n) [] (fifo s)
       = (None, [] @ take (nat n) (elems (fifo s)), (fifo s)\<lparr>elems := drop (nat n) (elems (fifo s))\<rparr>)"
      by (rule pop_loop_enough)
    then show ?thesis using run wl Some by (simp add: work_def)
  qed
qed


theorem work_blocks_then_pops_witness:
  "running (initial_session (Some (accepting_device True)) [] 10)
   \<and> fst (work (initial_session (Some (accepting_device True)) [] 10) 4
        [[Rx_callback [1, 2, 3, 4] 2], [Rx_callback [5, 6, 7, 8, 9, 10, 11, 12] 4]])
       = Work_returned 4 [Complex 1 2, Complex 3 4, Complex 5 6, Complex 7 8]
   \<and> elems (fifo (snd (work (initial_session (Some (accepting_device True)) [] 10) 4
        [[Rx_callback [1, 2, 3, 4] 2], [Rx_callback [5, 6, 7, 8, 9, 10, 11, 12] 4]])))
       = [Complex 9 10, Complex 11 12]
   \<and> fst (work (initial_session (Some (accepting_device True)) [] 10) 4
        [[Rx_callback [1, 2, 3, 4] 2]]) = Work_blocked"
  using work_blocks_then_pops [of "initial_session (Some (accepting_device True)) [] 10" 4
      "[[Rx_callback [1, 2, 3, 4] 2], [Rx_callback [5, 6, 7, 8, 9, 10, 11, 12] 4]]"]
    work_blocks_then_pops [of "initial_session (Some (accepting_device True)) [] 10" 4
      "[[Rx_callback [1, 2, 3, 4] 2]]"]
  by (simp add: initial_session_def accepting_device_def running_def airspy_is_streaming_def
      AIRSPY_TRUE_def cb_size_def others_run_def other_step_def airspy_rx_callback_def
      size_t_of_int_def push_loop_fits Let_def)


subsection \<open>work and the end of streaming\<close>

text \<open>
  C5. When the device is not streaming as \<^verbatim>\<open>work\<close> is entered (or there is no handle),
  \<^verbatim>\<open>work\<close> returns \<^verbatim>\<open>WORK_DONE\<close>, writes nothing and leaves the whole state, the FIFO
  included, as it was. The test reads the device through \<^verbatim>\<open>airspy_is_streaming\<close>; the
  session keeps no flag of its own.
\<close>

theorem work_not_streaming_done:
  "\<not> running st \<Longrightarrow> work st n waits = (Work_returned WORK_DONE [], st)"
  by (simp add: work_def)


theorem work_not_streaming_done_witness:
  "\<not> running (snd (airspy_rx_callback (initial_session (Some (accepting_device False)) [] 10)
                    [1, 2, 3, 4] 2))
   \<and> work (snd (airspy_rx_callback (initial_session (Some (accepting_device False)) [] 10)
                    [1, 2, 3, 4] 2)) 2 []
       = (Work_returned (- 1) [],
          snd (airspy_rx_callback (initial_session (Some (accepting_device False)) [] 10)
                    [1, 2, 3, 4] 2))
   \<and> elems (fifo (snd (work (snd (airspy_rx_callback
            (initial_session (Some (accepting_device False)) [] 10) [1, 2, 3, 4] 2)) 2 [])))
       = [Complex 1 2, Complex 3 4]"
  using work_not_streaming_done [of "snd (airspy_rx_callback
            (initial_session (Some (accepting_device False)) [] 10) [1, 2, 3, 4] 2)" 2 "[]"]
  by (simp add: initial_session_def accepting_device_def running_def airspy_is_streaming_def
      AIRSPY_TRUE_def WORK_DONE_def airspy_rx_callback_def size_t_of_int_def push_loop_fits
      cb_size_def Let_def)

lemma other_step_no_callback_fifo:
  "\<not> is_rx_callback a \<Longrightarrow> fifo (other_step st a) = fifo st"
  by (cases a) (simp_all add: other_step_def start_fifo stop_fifo)

lemma others_run_no_callback_fifo:
  "\<forall>a \<in> set w. \<not> is_rx_callback a \<Longrightarrow> fifo (others_run st w) = fifo st"
  unfolding others_run_def
  by (induction w arbitrary: st) (simp_all add: other_step_no_callback_fifo)

lemma wait_loop_no_callback:
  "int_of_size_t (cb_size (fifo st)) < n \<Longrightarrow>
   \<forall>w \<in> set waits. \<forall>a \<in> set w. \<not> is_rx_callback a \<Longrightarrow>
   fst (wait_loop st n waits) = False \<and> fifo (snd (wait_loop st n waits)) = fifo st"
  by (induction waits arbitrary: st) (simp_all add: others_run_no_callback_fifo)


text \<open>
  C4, as the code has it. Once \<^verbatim>\<open>work\<close> has passed its test at entry with fewer than
  \<open>n\<close> samples buffered, only the fill level can release it: under a schedule in which no
  transfer arrives (calls of \<^verbatim>\<open>stop\<close> and \<^verbatim>\<open>start\<close> and wakeups only) it stays blocked and
  the FIFO is untouched, and under no schedule at all does it return \<^verbatim>\<open>WORK_DONE\<close>.
\<close>

theorem work_wait_checks_fill_level_only:
  assumes run: "running st"
    and ok: "cb_size (fifo st) \<le> capacity (fifo st)" and cap: "capacity (fifo st) < 2 ^ 31"
    and short: "int (cb_size (fifo st)) < n"
  shows "((\<forall>w \<in> set waits. \<forall>a \<in> set w. \<not> is_rx_callback a) \<longrightarrow>
           fst (work st n waits) = Work_blocked \<and> fifo (snd (work st n waits)) = fifo st)
       \<and> fst (work st n waits) \<noteq> Work_returned WORK_DONE []"
proof -
  have short': "int_of_size_t (cb_size (fifo st)) < n"
    using ok cap short by (simp add: int_of_size_t_small)
  have blocked: "(\<forall>w \<in> set waits. \<forall>a \<in> set w. \<not> is_rx_callback a) \<longrightarrow>
           fst (work st n waits) = Work_blocked \<and> fifo (snd (work st n waits)) = fifo st"
  proof
    assume "\<forall>w \<in> set waits. \<forall>a \<in> set w. \<not> is_rx_callback a"
    with short' have "fst (wait_loop st n waits) = False
        \<and> fifo (snd (wait_loop st n waits)) = fifo st"
      by (rule wait_loop_no_callback)
    then show "fst (work st n waits) = Work_blocked \<and> fifo (snd (work st n waits)) = fifo st"
      using run by (cases "wait_loop st n waits") (simp add: work_def)
  qed
  have pos: "0 < n" using short by simp
  have not_done: "fst (work st n waits) \<noteq> Work_returned WORK_DONE []"
  proof (cases "wait_loop st n waits")
    case (Pair left st1)
    show ?thesis
    proof (cases "pop_loop (nat n) [] (fifo st1)")
      case (fields e out b)
      then show ?thesis
        using run Pair pos by (cases e; cases left) (auto simp: work_def WORK_DONE_def)
    qed
  qed
  from blocked not_done show ?thesis by (rule conjI)
qed


theorem work_wait_checks_fill_level_only_witness:
  "running (initial_session (Some (accepting_device True)) [] 10)
   \<and> fst (work (initial_session (Some (accepting_device True)) [] 10) 4
            [[Call_stop], [Call_start 7, Call_stop], []]) = Work_blocked
   \<and> fst (work (initial_session (Some (accepting_device True)) [] 10) 4
            [[Call_stop], [Rx_callback [1, 2] 1]]) \<noteq> Work_returned WORK_DONE []"
  using work_wait_checks_fill_level_only [of "initial_session (Some (accepting_device True)) [] 10"
       4 "[[Call_stop], [Call_start 7, Call_stop], []]"]
     work_wait_checks_fill_level_only [of "initial_session (Some (accepting_device True)) [] 10"
       4 "[[Call_stop], [Rx_callback [1, 2] 1]]"]
  by (simp add: initial_session_def accepting_device_def running_def airspy_is_streaming_def
      AIRSPY_TRUE_def cb_size_def)


text \<open>
  C4, as the specification has it, fails: the consumer waits for 4 samples on an empty
  FIFO, \<^verbatim>\<open>stop\<close> succeeds during the wait and the device no longer streams, the consumer
  wakes up twice more, and it is still blocked.
\<close>

theorem work_blocked_after_stop_counterexample:
  "fst (stop (initial_session (Some (accepting_device True)) [] 10)) = Inr True
   \<and> \<not> running (snd (stop (initial_session (Some (accepting_device True)) [] 10)))
   \<and> work (initial_session (Some (accepting_device True)) [] 10) 4 [[Call_stop], [], []]
       = (Work_blocked, snd (stop (initial_session (Some (accepting_device True)) [] 10)))"
  by (simp add: initial_session_def accepting_device_def running_def airspy_is_streaming_def
      AIRSPY_TRUE_def AIRSPY_SUCCESS_def cb_size_def work_def int_of_size_t_def
      others_run_def other_step_def stop_def airspy_call_def Let_def)

subsection \<open>The sample rate must be one of the discovered rates\<close>

lemma find_rate_snoc:
  "find_rate (rs @ [e]) r = (if fst e = r then (True, snd e) else find_rate rs r)"
  by (simp add: find_rate_def split: prod.splits)

lemma find_rate_found: "fst (find_rate rs r) \<longleftrightarrow> r \<in> fst ` set rs"
proof (induction rs rule: rev_induct)
  case Nil
  then show ?case by (simp add: find_rate_def)
next
  case (snoc e rs)
  then show ?case by (auto simp: find_rate_snoc)
qed

lemma find_rate_index: "r \<in> fst ` set rs \<Longrightarrow> (r, snd (find_rate rs r)) \<in> set rs"
proof (induction rs rule: rev_induct)
  case Nil
  then show ?case by simp
next
  case (snoc e rs)
  then show ?case by (cases e) (auto simp: find_rate_snoc)
qed

text \<open>
  C6. On an open device, a rate that is the first component of no entry of the rate list
  makes \<^verbatim>\<open>set_sample_rate\<close> throw "Unsupported samplerate" and leaves the whole state as
  it was: no libairspy call is made and the cached rate is kept. A rate that is in the
  list makes it issue \<^verbatim>\<open>airspy_set_samplerate\<close> with the index stored in a matching entry;
  when the device accepts, the cached rate becomes the requested one and is returned; when
  it refuses, the call throws and the cached rate is kept.
\<close>

theorem set_sample_rate_exact_match:
  assumes open_dev: "dev st = Some d"
  shows "(rate \<notin> fst ` set (sample_rates st) \<longrightarrow>
            set_sample_rate st rate = (Inl (Unsupported_samplerate (rate / 1000000)), st))
       \<and> (rate \<in> fst ` set (sample_rates st) \<longrightarrow>
            (let idx = snd (find_rate (sample_rates st) rate);
                 (r, st') = set_sample_rate st rate
             in (rate, idx) \<in> set (sample_rates st)
              \<and> issued st' = issued st @ [Set_samplerate idx]
              \<and> (respond d (issued st) (Set_samplerate idx) = AIRSPY_SUCCESS \<longrightarrow>
                   r = Inr rate \<and> get_sample_rate st' = rate)
              \<and> (respond d (issued st) (Set_samplerate idx) \<noteq> AIRSPY_SUCCESS \<longrightarrow>
                   r = Inl (Airspy_failed ''airspy_set_samplerate'' rate
                              (respond d (issued st) (Set_samplerate idx)))
                 \<and> get_sample_rate st' = get_sample_rate st)))"
proof (intro conjI impI)
  assume "rate \<notin> fst ` set (sample_rates st)"
  then have "\<not> fst (find_rate (sample_rates st) rate)" by (simp add: find_rate_found)
  then obtain i where "find_rate (sample_rates st) rate = (False, i)"
    by (cases "find_rate (sample_rates st) rate") simp
  then show "set_sample_rate st rate = (Inl (Unsupported_samplerate (rate / 1000000)), st)"
    using open_dev by (simp add: set_sample_rate_def)
next
  assume mem: "rate \<in> fst ` set (sample_rates st)"
  then have found: "fst (find_rate (sample_rates st) rate)" by (simp add: find_rate_found)
  from mem have idx: "(rate, snd (find_rate (sample_rates st) rate)) \<in> set (sample_rates st)"
    by (rule find_rate_index)
  obtain i where fr: "find_rate (sample_rates st) rate = (True, i)"
    using found by (cases "find_rate (sample_rates st) rate") simp
  show "let idx = snd (find_rate (sample_rates st) rate);
            (r, st') = set_sample_rate st rate
        in (rate, idx) \<in> set (sample_rates st)
         \<and> issued st' = issued st @ [Set_samplerate idx]
         \<and> (respond d (issued st) (Set_samplerate idx) = AIRSPY_SUCCESS \<longrightarrow>
              r = Inr rate \<and> get_sample_rate st' = rate)
         \<and> (respond d (issued st) (Set_samplerate idx) \<noteq> AIRSPY_SUCCESS \<longrightarrow>
              r = Inl (Airspy_failed ''airspy_set_samplerate'' rate
                         (respond d (issued st) (Set_samplerate idx)))
            \<and> get_sample_rate st' = get_sample_rate st)"
    using idx open_dev
    by (simp add: fr set_sample_rate_def airspy_call_def get_sample_rate_def Let_def)
qed

theorem set_sample_rate_exact_match_witness:
  "set_sample_rate
       (initial_session (Some (accepting_device False)) [(2500000, 1), (10000000, 0)] 10) 3000000
     = (Inl (Unsupported_samplerate 3),
        initial_session (Some (accepting_device False)) [(2500000, 1), (10000000, 0)] 10)
   \<and> fst (set_sample_rate
       (initial_session (Some (accepting_device False)) [(2500000, 1), (10000000, 0)] 10) 10000000)
     = Inr 10000000
   \<and> issued (snd (set_sample_rate
       (initial_session (Some (accepting_device False)) [(2500000, 1), (10000000, 0)] 10) 10000000))
     = [Set_samplerate 0]
   \<and> get_sample_rate (snd (set_sample_rate
       (initial_session (Some (accepting_device False)) [(2500000, 1), (10000000, 0)] 10) 10000000))
     = 10000000
   \<and> fst (set_sample_rate
       (initial_session (Some (device_accepting_first 0)) [(2500000, 1), (10000000, 0)] 10) 2500000)
     = Inl (Airspy_failed ''airspy_set_samplerate'' 2500000 (- 1000))
   \<and> get_sample_rate (snd (set_sample_rate
       (initial_session (Some (device_accepting_first 0)) [(2500000, 1), (10000000, 0)] 10) 2500000))
     = 0"
  using set_sample_rate_exact_match [of
      "initial_session (Some (accepting_device False)) [(2500000, 1), (10000000, 0)] 10"
      "accepting_device False" 3000000]
    set_sample_rate_exact_match [of
      "initial_session (Some (accepting_device False)) [(2500000, 1), (10000000, 0)] 10"
      "accepting_device False" 10000000]
    set_sample_rate_exact_match [of
      "initial_session (Some (device_accepting_first 0)) [(2500000, 1), (10000000, 0)] 10"
      "device_accepting_first 0" 2500000]
  by (simp add: initial_session_def accepting_device_def device_accepting_first_def
      find_rate_def get_sample_rate_def AIRSPY_SUCCESS_def split: prod.splits)

subsection \<open>Frequency correction\<close>

lemma airspy_call_dev:
  "\<exists>d'. dev (snd (airspy_call st d c)) = Some d' \<and> respond d' = respond d"
  by (simp add: airspy_call_def Let_def split: command.splits)


text \<open>
  The step bound of \<open>binade\<close> is not reached: on every magnitude below \<open>2 ^ 4149\<close>, which
  covers the sums and products of doubles, it returns the exponent that brings the
  magnitude to a 53-bit significand, or the exponent of the subnormal numbers.
\<close>

lemma pow2_pos: "0 < pow2 e"
  by (simp add: pow2_def)

lemma pow2_Suc: "pow2 (e + 1) = 2 * pow2 e"
proof (cases "0 \<le> e")
  case True
  then show ?thesis by (simp add: pow2_def nat_add_distrib)
next
  case False
  then have "nat (- e) = Suc (nat (- (e + 1)))" by simp
  then show ?thesis using False by (simp add: pow2_def)
qed

lemma pow2_pred: "pow2 (e - 1) = pow2 e / 2"
  using pow2_Suc [of "e - 1"] by simp

lemma binade_unit:
  assumes "0 < x" "x < 2 ^ 53 * 2 ^ n" "- 1074 \<le> e"
    and "2 ^ 52 \<le> x * 2 ^ n \<or> e - int n \<le> - 1074"
  shows "- 1074 \<le> binade n x e
       \<and> (let y = x * pow2 e / pow2 (binade n x e)
          in (2 ^ 52 \<le> y \<and> y < 2 ^ 53) \<or> (binade n x e = - 1074 \<and> y < 2 ^ 52))"
  using assms
proof (induction n x e rule: binade.induct)
  case (1 x e)
  then show ?case using pow2_pos [of e] by (auto simp: Let_def)
next
  case (2 n x e)
  show ?case
  proof (cases "2 ^ 53 \<le> x")
    case True
    have "- 1074 \<le> binade n (x / 2) (e + 1)
       \<and> (let y = x / 2 * pow2 (e + 1) / pow2 (binade n (x / 2) (e + 1))
          in (2 ^ 52 \<le> y \<and> y < 2 ^ 53)
           \<or> (binade n (x / 2) (e + 1) = - 1074 \<and> y < 2 ^ 52))"
    proof (intro "2.IH"(1))
      have "x / 2 * 1 \<le> x / 2 * 2 ^ n"
        using "2.prems"(1) by (intro mult_left_mono) simp_all
      then have grow: "x / 2 \<le> x / 2 * 2 ^ n" by simp
      have "2 ^ 52 \<le> x / 2" using True by simp
      then have "2 ^ 52 \<le> x / 2 * 2 ^ n" using grow by (rule order_trans)
      then show "2 ^ 52 \<le> x / 2 * 2 ^ n \<or> e + 1 - int n \<le> - 1074"
        by (rule disjI1)
    qed (use True "2.prems" in auto)
    then show ?thesis using True by (simp add: pow2_Suc)
  next
    case False
    show ?thesis
    proof (cases "x < 2 ^ 52 \<and> - 1074 < e")
      case True
      have "- 1074 \<le> binade n (x * 2) (e - 1)
         \<and> (let y = x * 2 * pow2 (e - 1) / pow2 (binade n (x * 2) (e - 1))
            in (2 ^ 52 \<le> y \<and> y < 2 ^ 53)
             \<or> (binade n (x * 2) (e - 1) = - 1074 \<and> y < 2 ^ 52))"
      proof (intro "2.IH"(2))
        have "(2::real) ^ 52 * 1 \<le> 2 ^ 52 * 2 ^ n"
          by (intro mult_left_mono) simp_all
        then have grow: "(2::real) ^ 52 \<le> 2 ^ 52 * 2 ^ n" by simp
        have "x < 2 ^ 52" using True by simp
        then have "x < 2 ^ 52 * 2 ^ n" using grow by (rule less_le_trans)
        then show "x * 2 < 2 ^ 53 * 2 ^ n" by simp
        show "2 ^ 52 \<le> x * 2 * 2 ^ n \<or> e - 1 - int n \<le> - 1074"
          using "2.prems"(4) by (auto simp: mult.assoc)
      qed (use False True "2.prems" in auto)
      then show ?thesis using False True by (simp add: pow2_pred)
    next
      case nodown: False
      then show ?thesis
        using False "2.prems"(3) pow2_pos [of e] by (auto simp: Let_def)
    qed
  qed
qed

lemma binade_4096:
  assumes "0 < x" "x < 2 ^ 4149"
  shows "- 1074 \<le> binade 4096 x 0
       \<and> (let y = x / pow2 (binade 4096 x 0)
          in (2 ^ 52 \<le> y \<and> y < 2 ^ 53) \<or> (binade 4096 x 0 = - 1074 \<and> y < 2 ^ 52))"
proof -
  have "x < 2 ^ 53 * 2 ^ 4096"
    using assms(2) by (simp add: power_add [symmetric])
  then show ?thesis
    using binade_unit [of x 4096 0] assms(1) by (simp add: pow2_def)
qed







subsection \<open>Automatic gain and the per-stage gains\<close>

lemma set_lna_gain_open:
  assumes "dev st = Some d"
    and "uint_of_double 8 (clip (gain_range_t 0 15 1) g True) = Some v"
  shows "set_lna_gain clip st g =
     (let ret = respond d (issued st) (Set_lna_gain v);
          st1 = st\<lparr>dev := Some d, issued := issued st @ [Set_lna_gain v]\<rparr>
      in if ret = AIRSPY_SUCCESS
         then (Inr (clip (gain_range_t 0 15 1) g True),
               st1\<lparr>lna_gain := clip (gain_range_t 0 15 1) g True\<rparr>)
         else (Inl (Airspy_failed ''airspy_set_lna_gain'' (real v) ret), st1))"
  using assms
  by (simp add: set_lna_gain_def get_gain_range_named_def airspy_call_def Let_def)

lemma set_mix_gain_open:
  assumes "dev st = Some d"
    and "uint_of_double 8 (clip (gain_range_t 0 15 1) g True) = Some v"
  shows "set_mix_gain clip st g =
     (let ret = respond d (issued st) (Set_mixer_gain v);
          st1 = st\<lparr>dev := Some d, issued := issued st @ [Set_mixer_gain v]\<rparr>
      in if ret = AIRSPY_SUCCESS
         then (Inr (clip (gain_range_t 0 15 1) g True),
               st1\<lparr>mix_gain := clip (gain_range_t 0 15 1) g True\<rparr>)
         else (Inl (Airspy_failed ''airspy_set_mixer_gain'' (real v) ret), st1))"
  using assms
  by (simp add: set_mix_gain_def get_gain_range_named_def airspy_call_def Let_def)

lemma set_gain_mode_on:
  assumes "dev st = Some d"
  shows "set_gain_mode clip st True =
     (Inr True, st\<lparr>dev := Some d, issued := issued st @ [Set_lna_agc 1, Set_mixer_agc 1],
                  auto_gain := True\<rparr>)"
  using assms by (simp add: set_gain_mode_def airspy_call_def get_gain_mode_def Let_def)

lemma set_lna_gain_fields:
  assumes "dev s = Some d"
    and "uint_of_double 8 (clip (gain_range_t 0 15 1) g True) = Some v"
    and "set_lna_gain clip s g = (r, s')"
  shows "issued s' = issued s @ [Set_lna_gain v]" "dev s' = Some d"
    "mix_gain s' = mix_gain s" "vga_gain s' = vga_gain s"
    "respond d (issued s) (Set_lna_gain v) = AIRSPY_SUCCESS \<Longrightarrow> \<exists>x. r = Inr x"
    "respond d (issued s) (Set_lna_gain v) \<noteq> AIRSPY_SUCCESS \<Longrightarrow>
       r = Inl (Airspy_failed ''airspy_set_lna_gain'' (real v)
                 (respond d (issued s) (Set_lna_gain v)))"
  using assms(3) unfolding set_lna_gain_open [where clip = clip and g = g, OF assms(1,2)]
  by (auto simp: Let_def split: if_splits)

lemma set_mix_gain_fields:
  assumes "dev s = Some d"
    and "uint_of_double 8 (clip (gain_range_t 0 15 1) g True) = Some v"
    and "set_mix_gain clip s g = (r, s')"
  shows "issued s' = issued s @ [Set_mixer_gain v]" "dev s' = Some d"
    "lna_gain s' = lna_gain s" "vga_gain s' = vga_gain s"
  using assms(3) unfolding set_mix_gain_open [where clip = clip and g = g, OF assms(1,2)]
  by (auto simp: Let_def split: if_splits)

lemma set_gain_mode_off:
  assumes "dev s = Some d"
  shows "set_gain_mode clip s False =
     (case set_lna_gain clip
             (s\<lparr>dev := Some d, issued := issued s @ [Set_lna_agc 0, Set_mixer_agc 0]\<rparr>)
             (lna_gain s) of
        (Inl e, st3) \<Rightarrow> (Inl e, st3)
      | (Inr x, st3) \<Rightarrow>
          (case set_mix_gain clip st3 (mix_gain st3) of
             (Inl e, st4) \<Rightarrow> (Inl e, st4)
           | (Inr y, st4) \<Rightarrow> (Inr False, st4\<lparr>auto_gain := False\<rparr>)))"
  using assms
  by (simp add: set_gain_mode_def airspy_call_def get_gain_mode_def Let_def
      split: prod.splits sum.splits)

text \<open>
  C8, as the code has it. On an open device automatic gain is switched on and then off.
  Switching on issues the two AGC calls and keeps the three cached gains. Switching off
  issues the two AGC calls, then \<^verbatim>\<open>airspy_set_lna_gain\<close> for the cached LNA gain and, when
  the device accepts it, \<^verbatim>\<open>airspy_set_mixer_gain\<close> for the cached MIX gain; when the device
  refuses the LNA gain the call throws there. No \<^verbatim>\<open>airspy_set_vga_gain\<close> is issued: the IF
  gain is not applied again, and its cached value is kept.
\<close>

theorem gain_mode_off_reapplies_lna_and_mix:
  assumes open_dev: "dev st = Some d"
    and l: "uint_of_double 8 (clip (gain_range_t 0 15 1) (lna_gain st) True) = Some l"
    and m: "uint_of_double 8 (clip (gain_range_t 0 15 1) (mix_gain st) True) = Some m"
  shows "let st1 = snd (set_gain_mode clip st True);
             (r, st2) = set_gain_mode clip st1 False;
             agc = issued st @ [Set_lna_agc 1, Set_mixer_agc 1, Set_lna_agc 0, Set_mixer_agc 0]
         in issued st1 = issued st @ [Set_lna_agc 1, Set_mixer_agc 1]
          \<and> lna_gain st1 = lna_gain st \<and> mix_gain st1 = mix_gain st
          \<and> vga_gain st1 = vga_gain st
          \<and> (respond d agc (Set_lna_gain l) = AIRSPY_SUCCESS \<longrightarrow>
                issued st2 = agc @ [Set_lna_gain l, Set_mixer_gain m])
          \<and> (respond d agc (Set_lna_gain l) \<noteq> AIRSPY_SUCCESS \<longrightarrow>
                issued st2 = agc @ [Set_lna_gain l]
              \<and> r = Inl (Airspy_failed ''airspy_set_lna_gain'' (real l)
                           (respond d agc (Set_lna_gain l))))
          \<and> vga_gain st2 = vga_gain st"
proof -
  define st1 where "st1 = st\<lparr>dev := Some d,
      issued := issued st @ [Set_lna_agc 1, Set_mixer_agc 1], auto_gain := True\<rparr>"
  define s2 where "s2 = st1\<lparr>dev := Some d,
      issued := issued st1 @ [Set_lna_agc 0, Set_mixer_agc 0]\<rparr>"
  let ?agc = "issued st @ [Set_lna_agc 1, Set_mixer_agc 1, Set_lna_agc 0, Set_mixer_agc 0]"
  have on: "set_gain_mode clip st True = (Inr True, st1)"
    unfolding st1_def using open_dev by (rule set_gain_mode_on)
  have st1: "dev st1 = Some d" "issued st1 = issued st @ [Set_lna_agc 1, Set_mixer_agc 1]"
    "lna_gain st1 = lna_gain st" "mix_gain st1 = mix_gain st" "vga_gain st1 = vga_gain st"
    by (simp_all add: st1_def)
  have s2: "dev s2 = Some d" "issued s2 = ?agc"
    "lna_gain s2 = lna_gain st" "mix_gain s2 = mix_gain st" "vga_gain s2 = vga_gain st"
    by (simp_all add: s2_def st1)
  obtain r3 s3 where lna: "set_lna_gain clip s2 (lna_gain st) = (r3, s3)"
    by (cases "set_lna_gain clip s2 (lna_gain st)")
  note f3 = set_lna_gain_fields [where clip = clip and g = "lna_gain st", OF s2(1) l lna]
  obtain r4 s4 where mix: "set_mix_gain clip s3 (mix_gain st) = (r4, s4)"
    by (cases "set_mix_gain clip s3 (mix_gain st)")
  note f4 = set_mix_gain_fields [where clip = clip and g = "mix_gain st", OF f3(2) m mix]
  have off: "set_gain_mode clip st1 False =
     (case r3 of Inl e \<Rightarrow> (Inl e, s3)
      | Inr x \<Rightarrow> (case r4 of Inl e \<Rightarrow> (Inl e, s4)
                 | Inr y \<Rightarrow> (Inr False, s4\<lparr>auto_gain := False\<rparr>)))"
    unfolding set_gain_mode_off [OF st1(1)] s2_def [symmetric] st1(3) lna
    by (simp add: f3(3) s2(4) mix split: sum.splits)
  show ?thesis
  proof (cases "respond d ?agc (Set_lna_gain l) = AIRSPY_SUCCESS")
    case True
    then obtain x where "r3 = Inr x" using f3(5) s2(2) by auto
    then show ?thesis
      using True by (simp add: on off st1 f3 f4 s2 split: sum.splits)
  next
    case False
    then have "r3 = Inl (Airspy_failed ''airspy_set_lna_gain'' (real l)
                 (respond d ?agc (Set_lna_gain l)))"
      using f3(6) s2(2) by simp
    then show ?thesis
      using False by (simp add: on off st1 f3 s2)
  qed
qed

theorem gain_mode_off_reapplies_lna_and_mix_witness:
  "issued (snd (set_gain_mode clamp_clip
      (snd (set_gain_mode clamp_clip
         ((initial_session (Some (accepting_device False)) [] 10)
            \<lparr>lna_gain := 3, mix_gain := 4, vga_gain := 6\<rparr>) True)) False))
     = [Set_lna_agc 1, Set_mixer_agc 1, Set_lna_agc 0, Set_mixer_agc 0,
        Set_lna_gain 3, Set_mixer_gain 4]
   \<and> vga_gain (snd (set_gain_mode clamp_clip
      (snd (set_gain_mode clamp_clip
         ((initial_session (Some (accepting_device False)) [] 10)
            \<lparr>lna_gain := 3, mix_gain := 4, vga_gain := 6\<rparr>) True)) False)) = 6
   \<and> set_gain_mode clamp_clip
      (snd (set_gain_mode clamp_clip
         ((initial_session (Some (device_accepting_first 4)) [] 10)
            \<lparr>lna_gain := 3, mix_gain := 4, vga_gain := 6\<rparr>) True)) False
     = (Inl (Airspy_failed ''airspy_set_lna_gain'' 3 (- 1000)),
        (initial_session (Some (device_accepting_first 4)) [] 10)
            \<lparr>lna_gain := 3, mix_gain := 4, vga_gain := 6, auto_gain := True,
             issued := [Set_lna_agc 1, Set_mixer_agc 1, Set_lna_agc 0, Set_mixer_agc 0,
                        Set_lna_gain 3]\<rparr>)"
  using gain_mode_off_reapplies_lna_and_mix [of
      "(initial_session (Some (accepting_device False)) [] 10)
            \<lparr>lna_gain := 3, mix_gain := 4, vga_gain := 6\<rparr>"
      "accepting_device False" clamp_clip 3 4]
    gain_mode_off_reapplies_lna_and_mix [of
      "(initial_session (Some (device_accepting_first 4)) [] 10)
            \<lparr>lna_gain := 3, mix_gain := 4, vga_gain := 6\<rparr>"
      "device_accepting_first 4" clamp_clip 3 4]
  by (simp add: initial_session_def accepting_device_def device_accepting_first_def
      clamp_clip_def gain_range_t_def uint_of_double_def Let_def AIRSPY_SUCCESS_def
      set_gain_mode_def set_lna_gain_def get_gain_range_named_def airspy_call_def
      split: prod.splits)

text \<open>
  C8, as the specification has it, fails for the IF stage: the three gains are set to
  8, 5 and 7, automatic gain is switched on and off again, every call is accepted. The
  calls made after the two AGC-off calls are the LNA and MIX gains only.
\<close>

theorem gain_mode_off_skips_if_gain_counterexample:
  "issued (snd (set_gain_mode clamp_clip
      (snd (set_gain_mode clamp_clip
         (snd (set_if_gain clamp_clip
            (snd (set_mix_gain clamp_clip
               (snd (set_lna_gain clamp_clip
                  (initial_session (Some (accepting_device False)) [] 10) 8)) 5)) 7)) True)) False))
     = [Set_lna_gain 8, Set_mixer_gain 5, Set_vga_gain 7,
        Set_lna_agc 1, Set_mixer_agc 1,
        Set_lna_agc 0, Set_mixer_agc 0, Set_lna_gain 8, Set_mixer_gain 5]"
  by (simp add: initial_session_def accepting_device_def clamp_clip_def gain_range_t_def
      uint_of_double_def set_gain_mode_def set_lna_gain_def set_mix_gain_def set_if_gain_def
      get_gain_range_named_def airspy_call_def get_gain_mode_def AIRSPY_SUCCESS_def Let_def)

subsection \<open>start\<close>

text \<open>
  C9. On an open session \<^verbatim>\<open>start\<close> makes one call, \<^verbatim>\<open>airspy_start_rx\<close> with the static
  callback and \<^verbatim>\<open>this\<close> as context. When the device refuses, \<^verbatim>\<open>start\<close> returns false
  (it returns, it does not throw) after writing a message; when the device accepts, it
  returns true. The context identifies the session: the static callback, given a transfer
  whose context is \<^verbatim>\<open>this\<close>, runs the member callback of the object stored there.
\<close>

theorem start_reports_rejection:
  assumes open_dev: "dev st = Some d"
  shows "let c = Start_rx Airspy_rx_callback_fn this;
             ret = respond d (issued st) c;
             (r, st') = start this st
         in issued st' = issued st @ [c]
          \<and> (ret \<noteq> AIRSPY_SUCCESS \<longrightarrow>
                r = Inr False
              \<and> cerr st' = cerr st @
                  [Str ''Failed to start RX streaming ('', Num ret, Str '')'', Endl])
          \<and> (ret = AIRSPY_SUCCESS \<longrightarrow> r = Inr True \<and> cerr st' = cerr st)
          \<and> (h this = Some obj \<longrightarrow>
                airspy_rx_callback_static h \<lparr>ctx = this, samples = buf, sample_count = k\<rparr>
                  = (fst (airspy_rx_callback obj buf k),
                     h(this \<mapsto> snd (airspy_rx_callback obj buf k))))"
  using open_dev
  by (simp add: start_def airspy_call_def airspy_rx_callback_static_def Let_def
      split: prod.splits)

theorem start_reports_rejection_witness:
  "start 7 (initial_session (Some (device_accepting_first 0)) [] 10)
     = (Inr False,
        (initial_session (Some (device_accepting_first 0)) [] 10)
          \<lparr>issued := [Start_rx Airspy_rx_callback_fn 7],
           cerr := [Str ''Failed to start RX streaming ('', Num (- 1000), Str '')'', Endl]\<rparr>)
   \<and> fst (start 7 (initial_session (Some (accepting_device False)) [] 10)) = Inr True
   \<and> issued (snd (start 7 (initial_session (Some (accepting_device False)) [] 10)))
       = [Start_rx Airspy_rx_callback_fn 7]
   \<and> fst (airspy_rx_callback_static
            [7 \<mapsto> snd (start 7 (initial_session (Some (accepting_device False)) [] 10))]
            \<lparr>ctx = 7, samples = [1, 2], sample_count = 1\<rparr>) = Inr 0
   \<and> map_option (\<lambda>obj. elems (fifo obj))
        (snd (airspy_rx_callback_static
            [7 \<mapsto> snd (start 7 (initial_session (Some (accepting_device False)) [] 10))]
            \<lparr>ctx = 7, samples = [1, 2], sample_count = 1\<rparr>) 7) = Some [Complex 1 2]"
  using start_reports_rejection [of "initial_session (Some (device_accepting_first 0)) [] 10"
      "device_accepting_first 0" 7 Map.empty undefined "[]" 0]
    start_reports_rejection [of "initial_session (Some (accepting_device False)) [] 10"
      "accepting_device False" 7
      "[7 \<mapsto> snd (start 7 (initial_session (Some (accepting_device False)) [] 10))]"
      "snd (start 7 (initial_session (Some (accepting_device False)) [] 10))" "[1, 2]" 1]
  by (simp add: initial_session_def accepting_device_def device_accepting_first_def
      start_def airspy_call_def AIRSPY_SUCCESS_def Let_def airspy_rx_callback_def
      size_t_of_int_def push_loop_fits push_back_def cb_size_def split: prod.splits)

subsection \<open>Setters without a device\<close>

text \<open>
  C10. Without a handle, \<^verbatim>\<open>set_sample_rate\<close>, \<^verbatim>\<open>set_center_freq\<close>, \<^verbatim>\<open>set_gain\<close>,
  \<^verbatim>\<open>set_lna_gain\<close>, \<^verbatim>\<open>set_mix_gain\<close> and \<^verbatim>\<open>set_if_gain\<close> return the cached value of their
  field and leave the whole state as it was, the trace of libairspy calls included;
  none of them throws.
\<close>

theorem null_handle_setters_do_nothing:
  assumes null: "dev st = None"
  shows "set_sample_rate st rate = (Inr (get_sample_rate st), st)
       \<and> set_center_freq st f = (Inr (get_center_freq st), st)
       \<and> set_gain clip st g = (Inr (gain st), st)
       \<and> set_lna_gain clip st g = (Inr (lna_gain st), st)
       \<and> set_mix_gain clip st g = (Inr (mix_gain st), st)
       \<and> set_if_gain clip st g = (Inr (vga_gain st), st)"
  using null
  by (simp add: set_sample_rate_def set_center_freq_def set_gain_def set_lna_gain_def
      set_mix_gain_def set_if_gain_def Let_def)

theorem null_handle_setters_do_nothing_witness:
  "set_sample_rate (initial_session None [(2500000, 1), (10000000, 0)] 10) 10000000
     = (Inr 0, initial_session None [(2500000, 1), (10000000, 0)] 10)
   \<and> set_center_freq (initial_session None [(2500000, 1), (10000000, 0)] 10) 100000000
     = (Inr 0, initial_session None [(2500000, 1), (10000000, 0)] 10)
   \<and> set_gain clamp_clip (initial_session None [(2500000, 1), (10000000, 0)] 10) 12
     = (Inr 0, initial_session None [(2500000, 1), (10000000, 0)] 10)
   \<and> set_lna_gain clamp_clip (initial_session None [(2500000, 1), (10000000, 0)] 10) 8
     = (Inr 0, initial_session None [(2500000, 1), (10000000, 0)] 10)
   \<and> set_mix_gain clamp_clip (initial_session None [(2500000, 1), (10000000, 0)] 10) 5
     = (Inr 0, initial_session None [(2500000, 1), (10000000, 0)] 10)
   \<and> set_if_gain clamp_clip (initial_session None [(2500000, 1), (10000000, 0)] 10) 5
     = (Inr 0, initial_session None [(2500000, 1), (10000000, 0)] 10)"
  using null_handle_setters_do_nothing [of "initial_session None [(2500000, 1), (10000000, 0)] 10"
      10000000 100000000 clamp_clip 12]
    null_handle_setters_do_nothing [of "initial_session None [(2500000, 1), (10000000, 0)] 10"
      10000000 100000000 clamp_clip 8]
    null_handle_setters_do_nothing [of "initial_session None [(2500000, 1), (10000000, 0)] 10"
      10000000 100000000 clamp_clip 5]
  by (simp add: initial_session_def get_sample_rate_def get_center_freq_def)

end
